theory Spec2Isabelle
  imports Main "HOL-Library.Sublist"
begin

section \<open>Text primitives\<close>

text \<open>
  Text is a list of 8-bit characters (the UTF-8 bytes of the Python string); the arrow
  of the generated comments is its three bytes. The classes \<^verbatim>\<open>\s\<close> and \<^verbatim>\<open>\d\<close> and
  \<^verbatim>\<open>str.strip\<close> are the ones of the ASCII range.
\<close>

abbreviation NL :: char where
  "NL \<equiv> CHR 0x0A"

definition is_space :: "char \<Rightarrow> bool" where
  "is_space c = (c \<in> set [CHR 0x09, CHR 0x0A, CHR 0x0B, CHR 0x0C, CHR 0x0D,
                            CHR 0x1C, CHR 0x1D, CHR 0x1E, CHR 0x1F, CHR 0x20])"

definition is_digit :: "char \<Rightarrow> bool" where
  "is_digit c = (c \<in> set ''0123456789'')"

text \<open>\<^verbatim>\<open>s.strip()\<close>: leading and trailing white space removed.\<close>

definition strip :: "string \<Rightarrow> string" where
  "strip s = rev (dropWhile is_space (rev (dropWhile is_space s)))"

text \<open>\<^verbatim>\<open>s.rstrip('\n')\<close>: trailing newlines removed.\<close>

definition rstrip_nl :: "string \<Rightarrow> string" where
  "rstrip_nl s = rev (dropWhile (\<lambda>c. c = NL) (rev s))"

text \<open>\<^verbatim>\<open>s.split('\n')\<close> and \<^verbatim>\<open>'\n'.join(ls)\<close>.\<close>

fun split_nl :: "string \<Rightarrow> string list" where
  "split_nl [] = [[]]"
| "split_nl (c # cs) =
     (if c = NL then [] # split_nl cs
      else (case split_nl cs of [] \<Rightarrow> [[c]] | l # ls \<Rightarrow> (c # l) # ls))"

fun join_nl :: "string list \<Rightarrow> string" where
  "join_nl [] = []"
| "join_nl [l] = l"
| "join_nl (l # ls) = l @ NL # join_nl ls"

text \<open>\<^verbatim>\<open>sub in s\<close> and \<^verbatim>\<open>s.find(sub)\<close> (\<open>None\<close> for \<^verbatim>\<open>-1\<close>).\<close>

fun contains :: "string \<Rightarrow> string \<Rightarrow> bool" where
  "contains sub [] = (sub = [])"
| "contains sub (c # cs) = (prefix sub (c # cs) \<or> contains sub cs)"

fun find_str :: "string \<Rightarrow> string \<Rightarrow> nat option" where
  "find_str sub [] = (if sub = [] then Some 0 else None)"
| "find_str sub (c # cs) =
     (if prefix sub (c # cs) then Some 0 else map_option Suc (find_str sub cs))"

text \<open>
  The index of the first line that contains a marker: the loop
  \<^verbatim>\<open>for i, line in enumerate(lines): if marker in line: ...\<close>.
\<close>

fun first_line_with :: "string \<Rightarrow> string list \<Rightarrow> nat option" where
  "first_line_with marker [] = None"
| "first_line_with marker (l # ls) =
     (if contains marker l then Some 0 else map_option Suc (first_line_with marker ls))"

section \<open>SimpleViewEditor: the drop guard\<close>

definition logic_start_line :: "string \<Rightarrow> nat option" where
  "logic_start_line text = first_line_with ''def control_loop'' (split_nl text)"

text \<open>
  \<open>dropEvent text drop_line\<close> is \<open>True\<close> when the drop reaches
  \<^verbatim>\<open>super().dropEvent(event)\<close> (the insertion is made) and \<open>False\<close> when the
  event is ignored.
\<close>

definition dropEvent :: "string \<Rightarrow> nat \<Rightarrow> bool" where
  "dropEvent text drop_line =
     (case logic_start_line text of
        None \<Rightarrow> True
      | Some logic_line \<Rightarrow> if drop_line \<le> logic_line then False else True)"

section \<open>Parameters: the spin boxes and the colour box\<close>

text \<open>
  A \<^verbatim>\<open>QDoubleSpinBox\<close> with \<^verbatim>\<open>setDecimals(d)\<close> holds a multiple of \<open>10\<^sup>-\<^sup>d\<close>
  inside its range; it is modelled by that multiple's numerator: hundredths for the four
  speeds and distances, tenths for the two angles. The combo box is not editable and
  holds one of its four items.
\<close>

datatype colour = Red | Blue | Yellow | Green

fun colour_text :: "colour \<Rightarrow> string" where
  "colour_text Red = ''Red''"
| "colour_text Blue = ''Blue''"
| "colour_text Yellow = ''Yellow''"
| "colour_text Green = ''Green''"

text \<open>\<^verbatim>\<open>if colour in ["Red", "Blue", "Yellow", "Green"]\<close>, with the item found.\<close>

definition colour_of_text :: "string \<Rightarrow> colour option" where
  "colour_of_text s =
     (if s = ''Red'' then Some Red
      else if s = ''Blue'' then Some Blue
      else if s = ''Yellow'' then Some Yellow
      else if s = ''Green'' then Some Green
      else None)"

record params =
  forward_speed :: nat
  backward_speed :: nat
  turn_speed :: nat
  obstacle_distance :: nat
  turn_cw :: nat
  turn_acw :: nat
  colour_detection :: colour

text \<open>The ranges set by \<^verbatim>\<open>setRange\<close>, in the units above.\<close>

definition in_range :: "'a params_scheme \<Rightarrow> bool" where
  "in_range P \<longleftrightarrow>
     1 \<le> forward_speed P \<and> forward_speed P \<le> 200 \<and>
     1 \<le> backward_speed P \<and> backward_speed P \<le> 200 \<and>
     10 \<le> turn_speed P \<and> turn_speed P \<le> 300 \<and>
     10 \<le> obstacle_distance P \<and> obstacle_distance P \<le> 200 \<and>
     turn_cw P \<le> 3600 \<and> turn_acw P \<le> 3600"

subsection \<open>Formatting: \<^verbatim>\<open>{v:.2f}\<close> and \<^verbatim>\<open>{v:.1f}\<close>\<close>

definition digit_char :: "nat \<Rightarrow> char" where
  "digit_char d = ''0123456789'' ! d"

fun show_nat :: "nat \<Rightarrow> string" where
  "show_nat n =
     (if n < 10 then [digit_char n] else show_nat (n div 10) @ [digit_char (n mod 10)])"

declare show_nat.simps [simp del]

primrec pad_digits :: "nat \<Rightarrow> nat \<Rightarrow> string" where
  "pad_digits 0 n = []"
| "pad_digits (Suc d) n = pad_digits d (n div 10) @ [digit_char (n mod 10)]"

text \<open>\<open>format_fixed d k\<close> is the text of \<open>k / 10\<^sup>d\<close> with \<open>d\<close> decimals.\<close>

definition format_fixed :: "nat \<Rightarrow> nat \<Rightarrow> string" where
  "format_fixed d k = show_nat (k div 10 ^ d) @ ''.'' @ pad_digits d (k mod 10 ^ d)"

subsection \<open>Parsing: \<^verbatim>\<open>float(m.group(1))\<close> and \<^verbatim>\<open>setValue\<close>\<close>

datatype exn = ValueError | FileNotFoundError

definition digit_val :: "char \<Rightarrow> nat" where
  "digit_val c = of_char c - 48"

definition digits_val :: "string \<Rightarrow> nat" where
  "digits_val s = foldl (\<lambda>a c. 10 * a + digit_val c) 0 s"

text \<open>
  \<^verbatim>\<open>float\<close> on the texts the group \<^verbatim>\<open>[\d.]+\<close> can deliver: digits with at most one
  point and at least one digit; anything else raises \<^verbatim>\<open>ValueError\<close> (\<open>None\<close>). The
  result \<open>(m, e)\<close> stands for the decimal \<open>m / 10\<^sup>e\<close>.
\<close>

definition py_float :: "string \<Rightarrow> (nat \<times> nat) option" where
  "py_float s =
     (let ip = takeWhile is_digit s; r = dropWhile is_digit s in
      case r of
        [] \<Rightarrow> if ip = [] then None else Some (digits_val ip, 0)
      | c # fr \<Rightarrow>
          if c = CHR ''.'' \<and> list_all is_digit fr \<and> (ip \<noteq> [] \<or> fr \<noteq> [])
          then Some (digits_val (ip @ fr), length fr)
          else None)"

text \<open>
  \<^verbatim>\<open>QDoubleSpinBox.setValue\<close>: the value is rounded to \<open>d\<close> decimals and bounded by the
  range. The decimal is rounded half up; on an exact decimal tie the code rounds the
  binary double instead, which no claim below depends on.
\<close>

definition spin_setValue :: "nat \<Rightarrow> nat \<Rightarrow> nat \<Rightarrow> nat \<times> nat \<Rightarrow> nat" where
  "spin_setValue lo hi d q =
     (case q of (m, e) \<Rightarrow> min hi (max lo ((2 * m * 10 ^ d + 10 ^ e) div (2 * 10 ^ e))))"

section \<open>The regular expressions\<close>

text \<open>
  A matcher tries one pattern at the start of a text and returns the text kept by
  \<^verbatim>\<open>\g<1>\<close>, the text of the value, and the text after the match. The classes of
  \<^verbatim>\<open>\s*\<close>, of \<^verbatim>\<open>=\<close> and of \<^verbatim>\<open>[\d.]+\<close> are disjoint, and so are \<^verbatim>\<open>[^"]*\<close> and the
  closing quote, so the greedy match is the only one and backtracking finds no other.
\<close>

type_synonym rmatch = "string \<times> string \<times> string"

abbreviation DQ :: char where
  "DQ \<equiv> CHR 0x22"

definition is_numch :: "char \<Rightarrow> bool" where
  "is_numch c \<longleftrightarrow> is_digit c \<or> c = CHR ''.''"

text \<open>\<^verbatim>\<open>(self\.NAME\s*=\s*)\<close>: the kept text and the text after it.\<close>

definition match_assign :: "string \<Rightarrow> string \<Rightarrow> (string \<times> string) option" where
  "match_assign name s =
     (let lit = ''self.'' @ name in
      if prefix lit s then
        (let s1 = drop (length lit) s in
         case dropWhile is_space s1 of
           [] \<Rightarrow> None
         | c # s2 \<Rightarrow>
             if c = CHR ''='' then
               Some (lit @ takeWhile is_space s1 @ ''='' @ takeWhile is_space s2,
                     dropWhile is_space s2)
             else None)
      else None)"

text \<open>\<^verbatim>\<open>(self\.NAME\s*=\s*)[\d.]+\<close>, and with the group on the number for the search.\<close>

definition match_num :: "string \<Rightarrow> string \<Rightarrow> rmatch option" where
  "match_num name s =
     (case match_assign name s of
        None \<Rightarrow> None
      | Some (g, s3) \<Rightarrow>
          if takeWhile is_numch s3 = [] then None
          else Some (g, takeWhile is_numch s3, dropWhile is_numch s3))"

text \<open>
  \<^verbatim>\<open>(self\.colour_detection\s*=\s*")[^"]*"\<close>: the value is the text between the
  quotes, the text after the match starts behind the closing quote.
\<close>

definition match_colour :: "string \<Rightarrow> rmatch option" where
  "match_colour s =
     (case match_assign ''colour_detection'' s of
        None \<Rightarrow> None
      | Some (g, s3) \<Rightarrow>
          (case s3 of
             [] \<Rightarrow> None
           | c # s4 \<Rightarrow>
               if c = DQ then
                 (case dropWhile (\<lambda>x. x \<noteq> DQ) s4 of
                    [] \<Rightarrow> None
                  | q # r \<Rightarrow> Some (g @ [DQ], takeWhile (\<lambda>x. x \<noteq> DQ) s4, r))
               else None))"

text \<open>\<^verbatim>\<open>self\.colour_detection\s*=\s*"([^"]+)"\<close>: the value is not empty.\<close>

definition match_colour1 :: "string \<Rightarrow> rmatch option" where
  "match_colour1 s =
     (case match_colour s of
        None \<Rightarrow> None
      | Some (g, v, r) \<Rightarrow> if v = [] then None else Some (g, v, r))"

text \<open>
  \<^verbatim>\<open>re.search\<close>: the match at the leftmost position where the matcher succeeds, with
  the text before it.
\<close>

fun re_search :: "(string \<Rightarrow> rmatch option) \<Rightarrow> string \<Rightarrow> (string \<times> rmatch) option" where
  "re_search m [] = map_option (\<lambda>x. ([], x)) (m [])"
| "re_search m (c # cs) =
     (case m (c # cs) of
        Some x \<Rightarrow> Some ([], x)
      | None \<Rightarrow> map_option (\<lambda>(p, x). (c # p, x)) (re_search m cs))"

text \<open>\<^verbatim>\<open>m = re.search(...)\<close> and then \<^verbatim>\<open>m.group(1)\<close>, for the patterns whose group is the value.\<close>

definition search_group :: "(string \<Rightarrow> rmatch option) \<Rightarrow> string \<Rightarrow> string option" where
  "search_group m text = map_option (\<lambda>(p, g, v, r). v) (re_search m text)"

text \<open>
  \<^verbatim>\<open>re.sub(pattern, rf'\g<1>{value}', code, count=1)\<close> for a number, and
  \<^verbatim>\<open>rf'\g<1>{colour}"'\<close> for the colour.
\<close>

definition sub_num :: "string \<Rightarrow> string \<Rightarrow> string \<Rightarrow> string" where
  "sub_num name val code =
     (case re_search (match_num name) code of
        None \<Rightarrow> code
      | Some (p, g, v, r) \<Rightarrow> p @ g @ val @ r)"

definition sub_colour :: "string \<Rightarrow> string \<Rightarrow> string" where
  "sub_colour val code =
     (case re_search match_colour code of
        None \<Rightarrow> code
      | Some (p, g, v, r) \<Rightarrow> p @ g @ val @ [DQ] @ r)"

text \<open>The list \<^verbatim>\<open>replacements\<close> and the loop over it, shared by three methods.\<close>

definition replace_params :: "'a params_scheme \<Rightarrow> string \<Rightarrow> string" where
  "replace_params P code =
     sub_colour (colour_text (colour_detection P))
       (sub_num ''turn_acw_deg'' (format_fixed 1 (turn_acw P))
         (sub_num ''turn_cw_deg'' (format_fixed 1 (turn_cw P))
           (sub_num ''obstacle_distance'' (format_fixed 2 (obstacle_distance P))
             (sub_num ''turn_speed'' (format_fixed 2 (turn_speed P))
               (sub_num ''backward_speed'' (format_fixed 2 (backward_speed P))
                 (sub_num ''forward_speed'' (format_fixed 2 (forward_speed P)) code))))))"

section \<open>The application state\<close>

text \<open>
  The fields of \<^verbatim>\<open>RobotControlApp\<close> that the synchronisation reads and writes: the
  parameter widgets, the text of the two editors, the files below the package directory
  (by relative path; \<open>None\<close> where \<^verbatim>\<open>os.path.isfile\<close> is false), the flag
  \<^verbatim>\<open>_syncing\<close>, the page of \<^verbatim>\<open>editor_stack\<close> (0 the Simple View, 1 the Full View)
  and \<^verbatim>\<open>_full_view_current_file\<close>. Reads and writes of a file succeed.
\<close>

record app = params +
  simple_editor :: string
  full_editor :: string
  files :: "string \<Rightarrow> string option"
  syncing :: bool
  editor_stack :: nat
  full_view_current_file :: "string option"

definition MOVEMENT_PY :: string where
  "MOVEMENT_PY = ''movement_pkg/movement.py''"

definition arrow :: string where
  "arrow = [CHR 0xE2, CHR 0x86, CHR 0x90]"

definition separator :: string where
  "separator = ''# === Movement Logic ===''"

definition marker_start :: string where
  "marker_start = ''        # user control_loop logic below'' @ [NL]"

definition marker_end :: string where
  "marker_end = ''        # end user control_loop logic''"

subsection \<open>The code generator\<close>

definition generate_simple_code :: "'a params_scheme \<Rightarrow> string" where
  "generate_simple_code P =
     ''from codebotair import Robot'' @ [NL] @
     [NL] @
     ''class Movement(Robot):'' @ [NL] @
     ''    def __init__(self):'' @ [NL] @
     ''        super().__init__()'' @ [NL] @
     ''        # === Editable Parameters ==='' @ [NL] @
     ''        self.forward_speed = '' @ format_fixed 2 (forward_speed P) @ ''       # m/s  '' @ arrow @ '' edit'' @ [NL] @
     ''        self.backward_speed = '' @ format_fixed 2 (backward_speed P) @ ''      # m/s  '' @ arrow @ '' edit'' @ [NL] @
     ''        self.turn_speed = '' @ format_fixed 2 (turn_speed P) @ ''          # rad/s  '' @ arrow @ '' edit'' @ [NL] @
     ''        self.obstacle_distance = '' @ format_fixed 2 (obstacle_distance P) @ ''   # metres  '' @ arrow @ '' edit'' @ [NL] @
     ''        self.turn_cw_deg = '' @ format_fixed 1 (turn_cw P) @ ''         # degrees CW  '' @ arrow @ '' edit'' @ [NL] @
     ''        self.turn_acw_deg = '' @ format_fixed 1 (turn_acw P) @ ''        # degrees ACW  '' @ arrow @ '' edit'' @ [NL] @
     ''        self.colour_detection = '' @ [DQ] @ colour_text (colour_detection P) @ [DQ] @ ''   # Red|Blue|Yellow|Green  '' @ arrow @ '' edit'' @ [NL] @
     [NL] @
     ''    # vvv Drag and drop functions below vvv'' @ [NL] @
     [NL] @
     ''    def control_loop(self):'' @ [NL] @
     ''        # === Movement Logic ==='' @ [NL] @
     ''        if self.obstacle_in_front():'' @ [NL] @
     ''            self.stop()                       # stop movement'' @ [NL] @
     ''            self.turn_cw(self.turn_cw_deg)    # turn clockwise  '' @ arrow @ '' edit'' @ [NL] @
     ''        else:'' @ [NL] @
     ''            self.move(self.forward_speed)     # drive forward  '' @ arrow @ '' edit'' @ [NL]"

text \<open>
  The same text in two parts, used in the proofs: the lines up to and including the
  separator line, and the default logic below it (\<open>generate_simple_code_parts\<close>).
\<close>

definition simple_header :: "'a params_scheme \<Rightarrow> string" where
  "simple_header P =
     ''from codebotair import Robot'' @ [NL] @
     [NL] @
     ''class Movement(Robot):'' @ [NL] @
     ''    def __init__(self):'' @ [NL] @
     ''        super().__init__()'' @ [NL] @
     ''        # === Editable Parameters ==='' @ [NL] @
     ''        self.forward_speed = '' @ format_fixed 2 (forward_speed P) @ ''       # m/s  '' @ arrow @ '' edit'' @ [NL] @
     ''        self.backward_speed = '' @ format_fixed 2 (backward_speed P) @ ''      # m/s  '' @ arrow @ '' edit'' @ [NL] @
     ''        self.turn_speed = '' @ format_fixed 2 (turn_speed P) @ ''          # rad/s  '' @ arrow @ '' edit'' @ [NL] @
     ''        self.obstacle_distance = '' @ format_fixed 2 (obstacle_distance P) @ ''   # metres  '' @ arrow @ '' edit'' @ [NL] @
     ''        self.turn_cw_deg = '' @ format_fixed 1 (turn_cw P) @ ''         # degrees CW  '' @ arrow @ '' edit'' @ [NL] @
     ''        self.turn_acw_deg = '' @ format_fixed 1 (turn_acw P) @ ''        # degrees ACW  '' @ arrow @ '' edit'' @ [NL] @
     ''        self.colour_detection = '' @ [DQ] @ colour_text (colour_detection P) @ [DQ] @ ''   # Red|Blue|Yellow|Green  '' @ arrow @ '' edit'' @ [NL] @
     [NL] @
     ''    # vvv Drag and drop functions below vvv'' @ [NL] @
     [NL] @
     ''    def control_loop(self):'' @ [NL] @
     ''        # === Movement Logic ==='' @ [NL]"

definition default_logic :: string where
  "default_logic =
     ''        if self.obstacle_in_front():'' @ [NL] @
     ''            self.stop()                       # stop movement'' @ [NL] @
     ''            self.turn_cw(self.turn_cw_deg)    # turn clockwise  '' @ arrow @ '' edit'' @ [NL] @
     ''        else:'' @ [NL] @
     ''            self.move(self.forward_speed)     # drive forward  '' @ arrow @ '' edit'' @ [NL]"

subsection \<open>Extraction: from the Simple View text to the widgets\<close>

text \<open>
  A step of a method body that may raise: the exception, if any, and the state reached.
  \<open>then_do\<close> runs the second step only when the first did not raise.
\<close>

type_synonym step = "app \<Rightarrow> exn option \<times> app"

definition then_do :: "step \<Rightarrow> step \<Rightarrow> step" where
  "then_do f g st = (case f st of (Some e, st') \<Rightarrow> (Some e, st') | (None, st') \<Rightarrow> g st')"

text \<open>
  \<^verbatim>\<open>m = re.search(...); if m: box.setValue(float(m.group(1)))\<close>. The signal
  \<^verbatim>\<open>valueChanged\<close> calls \<^verbatim>\<open>_sync_simple_view_from_spinboxes\<close>, which returns at once
  because \<^verbatim>\<open>_syncing\<close> is set.
\<close>

definition set_from_match ::
  "string \<Rightarrow> nat \<Rightarrow> nat \<Rightarrow> nat \<Rightarrow> (nat \<Rightarrow> app \<Rightarrow> app) \<Rightarrow> string \<Rightarrow> step" where
  "set_from_match name lo hi d set_box text st =
     (case search_group (match_num name) text of
        None \<Rightarrow> (None, st)
      | Some v \<Rightarrow>
          (case py_float v of
             None \<Rightarrow> (Some ValueError, st)
           | Some q \<Rightarrow> (None, set_box (spin_setValue lo hi d q) st)))"

definition set_colour_from_match :: "string \<Rightarrow> step" where
  "set_colour_from_match text st =
     (case search_group match_colour1 text of
        None \<Rightarrow> (None, st)
      | Some v \<Rightarrow>
          (case colour_of_text v of
             None \<Rightarrow> (None, st)
           | Some c \<Rightarrow> (None, st\<lparr>colour_detection := c\<rparr>)))"

text \<open>The body of the \<^verbatim>\<open>try\<close> block of \<^verbatim>\<open>_on_simple_code_changed\<close>.\<close>

definition parse_simple_code :: step where
  "parse_simple_code st =
     (let text = simple_editor st in
      then_do (set_from_match ''forward_speed'' 1 200 2 (\<lambda>x s. s\<lparr>forward_speed := x\<rparr>) text)
     (then_do (set_from_match ''backward_speed'' 1 200 2 (\<lambda>x s. s\<lparr>backward_speed := x\<rparr>) text)
     (then_do (set_from_match ''turn_speed'' 10 300 2 (\<lambda>x s. s\<lparr>turn_speed := x\<rparr>) text)
     (then_do (set_from_match ''obstacle_distance'' 10 200 2 (\<lambda>x s. s\<lparr>obstacle_distance := x\<rparr>) text)
     (then_do (set_from_match ''turn_cw_deg'' 0 3600 1 (\<lambda>x s. s\<lparr>turn_cw := x\<rparr>) text)
     (then_do (set_from_match ''turn_acw_deg'' 0 3600 1 (\<lambda>x s. s\<lparr>turn_acw := x\<rparr>) text)
              (set_colour_from_match text)))))) st)"

text \<open>\<^verbatim>\<open>try: body finally: self._syncing = False\<close>, after \<^verbatim>\<open>self._syncing = True\<close>.\<close>

definition with_syncing :: "step \<Rightarrow> step" where
  "with_syncing body st =
     (case body (st\<lparr>syncing := True\<rparr>) of (r, st') \<Rightarrow> (r, st'\<lparr>syncing := False\<rparr>))"

definition on_simple_code_changed :: step where
  "on_simple_code_changed st =
     (if syncing st then (None, st) else with_syncing parse_simple_code st)"

subsection \<open>In-place substitution: from the widgets to the Simple View text\<close>

text \<open>
  \<^verbatim>\<open>setPlainText\<close> emits \<^verbatim>\<open>textChanged\<close>, whose slot \<^verbatim>\<open>_on_simple_code_changed\<close>
  returns at once because \<^verbatim>\<open>_syncing\<close> is set. The cursor is not part of the state.
\<close>

definition sync_body :: step where
  "sync_body st =
     (let code = simple_editor st in
      if strip code = [] then (None, st\<lparr>simple_editor := generate_simple_code st\<rparr>)
      else
        (let new_code = replace_params st code in
         if new_code \<noteq> code then (None, st\<lparr>simple_editor := new_code\<rparr>) else (None, st)))"

definition sync_simple_view_from_spinboxes :: step where
  "sync_simple_view_from_spinboxes st =
     (if syncing st then (None, st) else with_syncing sync_body st)"

definition sync_full_view_from_spinboxes :: "app \<Rightarrow> app" where
  "sync_full_view_from_spinboxes st =
     (let code = full_editor st in
      if strip code = [] then st
      else
        (let new_code = replace_params st code in
         if new_code \<noteq> code then st\<lparr>full_editor := new_code\<rparr> else st))"

subsection \<open>The Simple View and \<^verbatim>\<open>movement.py\<close>\<close>

definition extract_simple_view_logic :: "string \<Rightarrow> string option" where
  "extract_simple_view_logic text =
     (let lines = split_nl text in
      case first_line_with separator lines of
        None \<Rightarrow> None
      | Some i \<Rightarrow>
          (let logic_lines = rev (dropWhile (\<lambda>l. strip l = []) (rev (drop (Suc i) lines))) in
           if logic_lines = [] then None else Some (join_nl logic_lines)))"

definition write_simple_logic_to_movement_py :: "app \<Rightarrow> app" where
  "write_simple_logic_to_movement_py st =
     (case extract_simple_view_logic (simple_editor st) of
        None \<Rightarrow> st
      | Some logic \<Rightarrow>
          (case files st MOVEMENT_PY of
             None \<Rightarrow> st
           | Some code \<Rightarrow>
               (case (find_str marker_start code, find_str marker_end code) of
                  (Some start_idx, Some end_idx) \<Rightarrow>
                    (let new_code = take (start_idx + length marker_start) code @ logic @ [NL]
                                      @ drop end_idx code in
                     if new_code \<noteq> code
                     then st\<lparr>files := (files st)(MOVEMENT_PY \<mapsto> new_code)\<rparr> else st)
                | _ \<Rightarrow> st)))"

text \<open>
  The search of \<^verbatim>\<open>_load_simple_view_from_movement_py\<close> with \<^verbatim>\<open>re.DOTALL\<close>: at the
  leftmost start marker that has an end marker behind it, the lazy group is the text up
  to the first end marker.
\<close>

fun search_saved_logic :: "string \<Rightarrow> string option" where
  "search_saved_logic [] = None"
| "search_saved_logic (c # cs) =
     (if prefix marker_start (c # cs) then
        (case find_str marker_end (drop (length marker_start) (c # cs)) of
           Some j \<Rightarrow> Some (take j (drop (length marker_start) (c # cs)))
         | None \<Rightarrow> search_saved_logic cs)
      else search_saved_logic cs)"

text \<open>
  \<^verbatim>\<open># Build Simple View with current spinbox params and saved logic\<close>: the generated
  lines up to the separator line, then the saved logic, then a newline.
\<close>

definition simple_view_with_logic :: "'a params_scheme \<Rightarrow> string \<Rightarrow> string" where
  "simple_view_with_logic P saved_logic =
     (let base_code = generate_simple_code P;
          lines = split_nl base_code
      in case first_line_with separator lines of
           None \<Rightarrow> base_code
         | Some i \<Rightarrow> join_nl (take (Suc i) lines @ [saved_logic]) @ [NL])"

definition set_simple_text :: "string \<Rightarrow> step" where
  "set_simple_text text st = (None, st\<lparr>simple_editor := text\<rparr>)"

definition load_simple_view_from_movement_py :: step where
  "load_simple_view_from_movement_py st =
     (case files st MOVEMENT_PY of
        None \<Rightarrow>
          if strip (simple_editor st) = []
          then with_syncing (set_simple_text (generate_simple_code st)) st
          else (None, st)
      | Some code \<Rightarrow>
          (case search_saved_logic code of
             None \<Rightarrow> with_syncing (set_simple_text (generate_simple_code st)) st
           | Some grp \<Rightarrow>
               (let saved_logic = rstrip_nl grp
                in with_syncing (set_simple_text (simple_view_with_logic st saved_logic)) st)))"

definition write_params_to_movement_py :: "app \<Rightarrow> app" where
  "write_params_to_movement_py st =
     (case files st MOVEMENT_PY of
        None \<Rightarrow> st
      | Some code \<Rightarrow> st\<lparr>files := (files st)(MOVEMENT_PY \<mapsto> replace_params st code)\<rparr>)"

text \<open>
  Reconciliation, as \<^verbatim>\<open>_autosave\<close>, \<^verbatim>\<open>_deploy_from_editor\<close> and
  \<^verbatim>\<open>_sync_simple_view_to_full_view\<close> run it: the parameter rewrite, then the logic splice.
\<close>

definition reconcile :: "app \<Rightarrow> app" where
  "reconcile st = write_simple_logic_to_movement_py (write_params_to_movement_py st)"

text \<open>
  \<^verbatim>\<open>open(MOVEMENT_PY, 'r')\<close> raises when the file is missing: the two writers before it
  return early then, this read does not.
\<close>

definition sync_simple_view_to_full_view :: step where
  "sync_simple_view_to_full_view st =
     (let st' = reconcile st in
      if full_view_current_file st' = Some MOVEMENT_PY then
        (case files st' MOVEMENT_PY of
           None \<Rightarrow> (Some FileNotFoundError, st')
         | Some code \<Rightarrow> (None, st'\<lparr>full_editor := code\<rparr>))
      else (None, st'))"

definition save_full_view_file :: "app \<Rightarrow> app" where
  "save_full_view_file st =
     (case full_view_current_file st of
        None \<Rightarrow> st
      | Some path \<Rightarrow>
          if path = [] then st
          else st\<lparr>files := (files st)(path \<mapsto> full_editor st)\<rparr>)"

definition autosave :: "app \<Rightarrow> app" where
  "autosave st = (if editor_stack st = 0 then reconcile st else save_full_view_file st)"

definition show_simple_view :: step where
  "show_simple_view st =
     (let st1 = (if editor_stack st = 1 then save_full_view_file st else st) in
      load_simple_view_from_movement_py (st1\<lparr>editor_stack := 0\<rparr>))"

definition show_full_view :: step where
  "show_full_view st =
     then_do
       (\<lambda>s. if editor_stack s = 0 then sync_simple_view_to_full_view s else (None, s))
       (\<lambda>s1.
          (let st2 = s1\<lparr>editor_stack := 1\<rparr> in
           if full_view_current_file st2 = Some MOVEMENT_PY
           then (None, sync_full_view_from_spinboxes st2) else (None, st2)))
       st"

section \<open>Texts that hold the seven assignments\<close>


definition assignments_ok :: "string list \<Rightarrow> string list \<Rightarrow> string \<Rightarrow> bool" where
  "assignments_ok A n v \<longleftrightarrow>
     length A = 7 \<and> length n = 6 \<and>
     list_all (\<lambda>a. \<not> contains ''self.'' a) A \<and>
     list_all (\<lambda>x. x \<noteq> [] \<and> list_all is_numch x) n \<and>
     list_all (\<lambda>a. takeWhile is_numch a = []) (tl A) \<and>
     DQ \<notin> set v"

text \<open>The texts that the substitution writes: \<^verbatim>\<open>{v:.2f}\<close>, \<^verbatim>\<open>{v:.1f}\<close> and \<^verbatim>\<open>currentText()\<close>.\<close>

definition value_texts :: "'a params_scheme \<Rightarrow> string list" where
  "value_texts P =
     [format_fixed 2 (forward_speed P), format_fixed 2 (backward_speed P),
      format_fixed 2 (turn_speed P), format_fixed 2 (obstacle_distance P),
      format_fixed 1 (turn_cw P), format_fixed 1 (turn_acw P)]"

definition colour_value :: "'a params_scheme \<Rightarrow> string" where
  "colour_value P = colour_text (colour_detection P)"



section \<open>Concrete states\<close>

text \<open>
  The state after \<^verbatim>\<open>__init__\<close>: every spin box at the value its range and
  \<^verbatim>\<open>setValue\<close> leave, the first colour, empty editors, the Simple View shown.
\<close>

definition init_app :: "(string \<Rightarrow> string option) \<Rightarrow> app" where
  "init_app fs =
     \<lparr>forward_speed = 1, backward_speed = 1, turn_speed = 10, obstacle_distance = 10,
      turn_cw = 900, turn_acw = 900, colour_detection = Red,
      simple_editor = [], full_editor = [], files = fs, syncing = False,
      editor_stack = 0, full_view_current_file = None\<rparr>"

text \<open>A Simple View whose first number has two points.\<close>

definition malformed_state :: app where
  "malformed_state =
     (init_app Map.empty)\<lparr>simple_editor :=
        ''self.forward_speed = 1.2.3'' @ [NL] @ ''self.backward_speed = 0.50'' @ [NL]\<rparr>"




text \<open>A Simple View without the separator line, above an artifact with logic.\<close>

definition no_separator_state :: app where
  "no_separator_state =
     (init_app (Map.empty(MOVEMENT_PY \<mapsto>
         marker_start @ ''        self.stop()'' @ [NL] @ marker_end @ [NL])))
       \<lparr>simple_editor := ''x = 1''\<rparr>"

text \<open>
  A document with the sentinel \<^verbatim>\<open>def control_loop\<close> on line 10 (counted from 0, as
  \<^verbatim>\<open>blockNumber()\<close> counts).
\<close>

definition sentinel_document :: string where
  "sentinel_document =
     concat (replicate 10 (''# comment'' @ [NL]))
       @ ''    def control_loop(self):'' @ [NL]
       @ ''        # === Movement Logic ==='' @ [NL]
       @ ''        self.stop()'' @ [NL]"














section \<open>Basic facts about the text primitives\<close>

lemma split_nl_nonempty: "split_nl s \<noteq> []"
  by (induction s) (auto split: list.splits)

lemma first_line_with_Some_iff:
  "first_line_with m ls = Some i \<longleftrightarrow>
     i < length ls \<and> contains m (ls ! i) \<and> (\<forall>j<i. \<not> contains m (ls ! j))"
proof (induction ls arbitrary: i)
  case Nil
  then show ?case by simp
next
  case (Cons l ls)
  show ?case
  proof (cases "contains m l")
    case True
    then show ?thesis by (cases i) auto
  next
    case False
    show ?thesis
    proof (cases i)
      case 0
      with False show ?thesis by auto
    next
      case (Suc k)
      have "(\<forall>j<Suc k. \<not> contains m ((l # ls) ! j)) \<longleftrightarrow> (\<forall>j<k. \<not> contains m (ls ! j))"
        using False by (auto simp: less_Suc_eq_0_disj)
      with False Suc Cons.IH [of k] show ?thesis by auto
    qed
  qed
qed

lemma first_line_with_None_iff:
  "first_line_with m ls = None \<longleftrightarrow> (\<forall>l \<in> set ls. \<not> contains m l)"
  by (induction ls) auto

section \<open>Claims about the drop guard\<close>

text \<open>
  C7 (as stated, second half): when no line of the document contains the sentinel
  \<^verbatim>\<open>def control_loop\<close>, every insertion is rejected. The code does the opposite:
  the guard \<^verbatim>\<open>if logic_line is not None\<close> is skipped and the drop is made. Here the
  document \<^verbatim>\<open>x = 1\<close> has no sentinel and a drop at line 0 is accepted.
\<close>

theorem C7_no_sentinel_drop_accepted:
  "logic_start_line ''x = 1'' = None \<and> dropEvent ''x = 1'' 0"
  by (simp add: logic_start_line_def dropEvent_def)

text \<open>
  C7 (amended): for every document text, with B the index of the first line (of the
  text split at its newlines) that contains \<^verbatim>\<open>def control_loop\<close>, a drop resolved to
  line t is rejected exactly when t \<le> B; and when no line contains the sentinel, every
  drop is accepted.
\<close>

theorem C7_drop_guard:
  "(B < length (split_nl text) \<and> contains ''def control_loop'' (split_nl text ! B) \<and>
      (\<forall>j<B. \<not> contains ''def control_loop'' (split_nl text ! j))
        \<longrightarrow> (dropEvent text t \<longleftrightarrow> \<not> t \<le> B)) \<and>
   ((\<forall>l \<in> set (split_nl text). \<not> contains ''def control_loop'' l) \<longrightarrow> dropEvent text t)"
proof (intro conjI impI)
  assume "B < length (split_nl text) \<and> contains ''def control_loop'' (split_nl text ! B) \<and>
      (\<forall>j<B. \<not> contains ''def control_loop'' (split_nl text ! j))"
  then have "logic_start_line text = Some B"
    unfolding logic_start_line_def first_line_with_Some_iff by simp
  then show "dropEvent text t \<longleftrightarrow> \<not> t \<le> B"
    by (simp add: dropEvent_def)
next
  assume "\<forall>l \<in> set (split_nl text). \<not> contains ''def control_loop'' l"
  then have "logic_start_line text = None"
    unfolding logic_start_line_def first_line_with_None_iff by simp
  then show "dropEvent text t"
    by (simp add: dropEvent_def)
qed

lemma sentinel_lines:
  "split_nl sentinel_document =
     replicate 10 ''# comment'' @
       [''    def control_loop(self):'', ''        # === Movement Logic ==='',
        ''        self.stop()'', []]"
  by (simp add: sentinel_document_def numeral_eq_Suc)

text \<open>
  The sentinel on line 10: drops at lines 5 and 10 are rejected, a drop at line 12 is
  made; and a document without the sentinel takes a drop at line 5.
\<close>

theorem C7_drop_guard_witness:
  "length (split_nl sentinel_document) = 14 \<and>
   contains ''def control_loop'' (split_nl sentinel_document ! 10) \<and>
   \<not> (\<exists>j<10. contains ''def control_loop'' (split_nl sentinel_document ! j)) \<and>
   \<not> dropEvent sentinel_document 5 \<and> \<not> dropEvent sentinel_document 10 \<and>
   dropEvent sentinel_document 12 \<and>
   \<not> (\<exists>l \<in> set (split_nl ''x = 1''). contains ''def control_loop'' l) \<and>
   dropEvent ''x = 1'' 5"
proof -
  have l: "length (split_nl sentinel_document) = 14"
    by (simp add: sentinel_lines)
  have c: "contains ''def control_loop'' (split_nl sentinel_document ! 10)"
    by (simp add: sentinel_lines nth_append)
  have n: "\<not> contains ''def control_loop'' (split_nl sentinel_document ! j)" if "j < 10" for j
    using that by (simp add: sentinel_lines nth_append)
  have x: "\<forall>l \<in> set (split_nl ''x = 1''). \<not> contains ''def control_loop'' l"
    by simp
  from l c n x
    C7_drop_guard [of 10 sentinel_document 5]
    C7_drop_guard [of 10 sentinel_document 10]
    C7_drop_guard [of 10 sentinel_document 12]
    C7_drop_guard [of 10 "''x = 1''" 5]
  show ?thesis by auto
qed

lemma strip_Nil_iff: "strip s = [] \<longleftrightarrow> (\<forall>c \<in> set s. is_space c)"
proof
  assume "strip s = []"
  then have all: "\<forall>x \<in> set (dropWhile is_space s). is_space x"
    by (simp add: strip_def dropWhile_eq_Nil_conv)
  have "dropWhile is_space s = []"
  proof (rule ccontr)
    assume ne: "dropWhile is_space s \<noteq> []"
    then have "\<not> is_space (hd (dropWhile is_space s))"
      by (rule hd_dropWhile)
    moreover have "hd (dropWhile is_space s) \<in> set (dropWhile is_space s)"
      using ne by simp
    ultimately show False using all by blast
  qed
  then show "\<forall>c \<in> set s. is_space c"
    by (simp add: dropWhile_eq_Nil_conv)
next
  assume "\<forall>c \<in> set s. is_space c"
  then have "\<forall>x \<in> set (dropWhile is_space s). is_space x"
    by (blast dest: set_dropWhileD)
  then show "strip s = []"
    by (simp add: strip_def dropWhile_eq_Nil_conv)
qed

lemma find_str_bound: "find_str sub s = Some i \<Longrightarrow> i + length sub \<le> length s"
proof (induction s arbitrary: i)
  case Nil
  then show ?case by (simp split: if_splits)
next
  case (Cons c cs)
  show ?case
  proof (cases "prefix sub (c # cs)")
    case True
    with Cons.prems show ?thesis by (auto dest: prefix_length_le)
  next
    case False
    with Cons.prems obtain k where "find_str sub cs = Some k" "i = Suc k" by auto
    with Cons.IH [of k] show ?thesis by simp
  qed
qed

section \<open>The reentrancy flag\<close>

lemma with_syncing_resets: "\<not> syncing (snd (with_syncing body st))"
  by (simp add: with_syncing_def split: prod.splits)

text \<open>
  C10: every operation that sets \<^verbatim>\<open>_syncing\<close> resets it before it returns, also when
  its body raises (\<open>with_syncing\<close> with any body, and the extraction that raises
  \<^verbatim>\<open>ValueError\<close>); so the flag is false after each of the three operations whenever it
  was false before.
\<close>

theorem C10_syncing_reset:
  assumes "\<not> syncing st"
  shows "\<not> syncing (snd (on_simple_code_changed st)) \<and>
         \<not> syncing (snd (sync_simple_view_from_spinboxes st)) \<and>
         \<not> syncing (snd (load_simple_view_from_movement_py st)) \<and>
         \<not> syncing (snd (with_syncing body st))"
  using assms
  by (simp add: on_simple_code_changed_def sync_simple_view_from_spinboxes_def
      load_simple_view_from_movement_py_def with_syncing_resets Let_def
      split: option.splits)

theorem C10_syncing_reset_witness:
  "fst (on_simple_code_changed malformed_state) = Some ValueError \<and>
   \<not> syncing (snd (on_simple_code_changed malformed_state))"
proof -
  have h: "\<not> syncing malformed_state"
    by (simp add: malformed_state_def init_app_def)
  have "fst (on_simple_code_changed malformed_state) = Some ValueError"
    by code_simp
  with C10_syncing_reset [OF h] show ?thesis by simp
qed

section \<open>The logic splice\<close>

text \<open>
  C9: when the Simple View has no separator line, or only blank lines after it, the
  extraction returns nothing and the logic splice leaves the state, and so the artifact
  on disk, as it is.
\<close>

theorem C9_empty_logic_keeps_artifact:
  assumes "first_line_with separator (split_nl (simple_editor st)) = None \<or>
           (\<exists>i. first_line_with separator (split_nl (simple_editor st)) = Some i \<and>
                (\<forall>l \<in> set (drop (Suc i) (split_nl (simple_editor st))).
                   \<forall>c \<in> set l. is_space c))"
  shows "extract_simple_view_logic (simple_editor st) = None \<and>
         write_simple_logic_to_movement_py st = st"
proof -
  have "extract_simple_view_logic (simple_editor st) = None"
    using assms
    by (auto simp: extract_simple_view_logic_def Let_def dropWhile_eq_Nil_conv strip_Nil_iff)
  then show ?thesis
    by (simp add: write_simple_logic_to_movement_py_def)
qed

theorem C9_empty_logic_keeps_artifact_witness:
  "extract_simple_view_logic (simple_editor no_separator_state) = None \<and>
   write_simple_logic_to_movement_py no_separator_state = no_separator_state"
proof -
  have "first_line_with separator (split_nl (simple_editor no_separator_state)) = None"
    by (simp add: no_separator_state_def init_app_def separator_def)
  then show ?thesis
    by (intro C9_empty_logic_keeps_artifact) simp
qed

section \<open>Extraction of malformed numbers\<close>

text \<open>
  C8 (the code at the failing input): the Simple View reads
  \<^verbatim>\<open>self.forward_speed = 1.2.3\<close> and then \<^verbatim>\<open>self.backward_speed = 0.50\<close>. The first
  \<^verbatim>\<open>float\<close> raises \<^verbatim>\<open>ValueError\<close>, which leaves the method: the backward speed is never
  parsed and stays at 0.01.
\<close>

theorem C8_malformed_number_raises:
  "on_simple_code_changed malformed_state = (Some ValueError, malformed_state)"
  by (simp add: on_simple_code_changed_def malformed_state_def init_app_def with_syncing_def
      parse_simple_code_def then_do_def set_from_match_def search_group_def match_num_def
      match_assign_def is_space_def is_numch_def is_digit_def py_float_def)


lemma re_search_first:
  "re_search m s = Some (p, x) \<Longrightarrow> k < length p \<Longrightarrow> m (drop k s) = None"
proof (induction s arbitrary: p k)
  case Nil
  then show ?case by auto
next
  case (Cons c cs)
  show ?case
  proof (cases "m (c # cs)")
    case (Some y)
    with Cons.prems show ?thesis by auto
  next
    case None
    with Cons.prems obtain p' where p': "re_search m cs = Some (p', x)" "p = c # p'"
      by (auto split: prod.splits)
    show ?thesis
    proof (cases k)
      case 0
      with None show ?thesis by simp
    next
      case (Suc j)
      with Cons.prems(2) p'(2) have "j < length p'" by simp
      from Cons.IH [OF p'(1) this] Suc show ?thesis by simp
    qed
  qed
qed

lemma re_search_None_iff:
  "re_search m s = None \<longleftrightarrow> (\<forall>k \<le> length s. m (drop k s) = None)"
proof (induction s)
  case Nil
  then show ?case by auto
next
  case (Cons c cs)
  have "(\<forall>k \<le> length (c # cs). m (drop k (c # cs)) = None) \<longleftrightarrow>
        m (c # cs) = None \<and> (\<forall>k \<le> length cs. m (drop k cs) = None)"
  proof
    assume a: "\<forall>k \<le> length (c # cs). m (drop k (c # cs)) = None"
    have "m (c # cs) = None" using a [rule_format, of 0] by simp
    moreover have "\<forall>k \<le> length cs. m (drop k cs) = None"
    proof (intro allI impI)
      fix k assume "k \<le> length cs"
      then show "m (drop k cs) = None" using a [rule_format, of "Suc k"] by simp
    qed
    ultimately show "m (c # cs) = None \<and> (\<forall>k \<le> length cs. m (drop k cs) = None)" by simp
  next
    assume a: "m (c # cs) = None \<and> (\<forall>k \<le> length cs. m (drop k cs) = None)"
    show "\<forall>k \<le> length (c # cs). m (drop k (c # cs)) = None"
    proof (intro allI impI)
      fix k assume k: "k \<le> length (c # cs)"
      show "m (drop k (c # cs)) = None"
      proof (cases k)
        case 0
        with a show ?thesis by simp
      next
        case (Suc j)
        with k a show ?thesis by simp
      qed
    qed
  qed
  with Cons show ?case by (auto split: option.splits)
qed

lemma re_search_eqI:
  assumes "m s' = Some x" and "\<And>k. k < length p \<Longrightarrow> m (drop k (p @ s')) = None"
  shows "re_search m (p @ s') = Some (p, x)"
  using assms
proof (induction p)
  case Nil
  then show ?case by (cases s') auto
next
  case (Cons c p)
  have "m ((c # p) @ s') = None" using Cons.prems(2) [of 0] by simp
  moreover have "re_search m (p @ s') = Some (p, x)"
  proof (rule Cons.IH [OF Cons.prems(1)])
    fix k assume "k < length p"
    then show "m (drop k (p @ s')) = None" using Cons.prems(2) [of "Suc k"] by simp
  qed
  ultimately show ?case by simp
qed




section \<open>Occurrences of a marker\<close>





section \<open>The formatted numbers\<close>

lemma is_digit_digit_char: "d < 10 \<Longrightarrow> is_digit (digit_char d)"
  by (simp add: is_digit_def digit_char_def del: set_simps)

lemma show_nat_digits: "\<forall>c \<in> set (show_nat n). is_digit c"
proof (induction n rule: show_nat.induct)
  case (1 n)
  show ?case
  proof (cases "n < 10")
    case True
    then show ?thesis by (subst show_nat.simps) (simp add: is_digit_digit_char)
  next
    case False
    with 1 show ?thesis by (subst show_nat.simps) (simp add: is_digit_digit_char)
  qed
qed

lemma show_nat_nonempty: "show_nat n \<noteq> []"
  by (subst show_nat.simps) simp

lemma pad_digits_digits: "\<forall>c \<in> set (pad_digits d n). is_digit c"
  by (induction d arbitrary: n) (auto simp: is_digit_digit_char)

lemma length_pad_digits: "length (pad_digits d n) = d"
  by (induction d arbitrary: n) auto

lemma format_fixed_numch: "\<forall>c \<in> set (format_fixed d k). is_numch c"
  using show_nat_digits pad_digits_digits by (auto simp: format_fixed_def is_numch_def)

lemma format_fixed_nonempty: "format_fixed d k \<noteq> []"
  by (simp add: format_fixed_def)

section \<open>The rewrite creates no marker\<close>








section \<open>Reconciliation\<close>

lemma replace_params_files [simp]:
  "replace_params (st\<lparr>files := fs\<rparr>) code = replace_params st code"
  by (simp add: replace_params_def)








section \<open>Reading the generated text back\<close>

lemma match_assign_not_s: "c \<noteq> CHR ''s'' \<Longrightarrow> match_assign name (c # cs) = None"
  by (simp add: match_assign_def)

lemma match_num_not_s: "c \<noteq> CHR ''s'' \<Longrightarrow> match_num name (c # cs) = None"
  by (simp add: match_num_def match_assign_not_s)

lemma match_colour_not_s: "c \<noteq> CHR ''s'' \<Longrightarrow> match_colour (c # cs) = None"
  by (simp add: match_colour_def match_assign_not_s)

lemma match_colour1_not_s: "c \<noteq> CHR ''s'' \<Longrightarrow> match_colour1 (c # cs) = None"
  by (simp add: match_colour1_def match_colour_not_s)

lemma search_group_Cons:
  "search_group m (c # cs) =
     (case m (c # cs) of Some x \<Rightarrow> Some (fst (snd x)) | None \<Rightarrow> search_group m cs)"
  by (auto simp: search_group_def option.map_comp comp_def split_def split: option.splits)

lemma search_group_skip:
  assumes "\<And>c cs. c \<noteq> CHR ''s'' \<Longrightarrow> m (c # cs) = None"
    and "\<forall>c \<in> set xs. c \<noteq> CHR ''s''"
  shows "search_group m (xs @ y # ys) = search_group m (y # ys)"
  using assms(2)
proof (induction xs)
  case Nil
  show ?case by simp
next
  case (Cons c xs)
  then have "m (c # xs @ y # ys) = None" using assms(1) by simp
  with Cons show ?case by (simp add: search_group_Cons)
qed

lemma numch_not_s: "is_numch c \<Longrightarrow> c \<noteq> CHR ''s''"
  by (auto simp: is_numch_def is_digit_def)

lemma format_fixed_no_s: "\<forall>c \<in> set (format_fixed d k). c \<noteq> CHR ''s''"
  using format_fixed_numch numch_not_s by blast

lemma takeWhile_numch_format:
  "\<not> is_numch c \<Longrightarrow> takeWhile is_numch (format_fixed d k @ c # r) = format_fixed d k"
  using format_fixed_numch by (simp add: takeWhile_append2)

lemma dropWhile_numch_format:
  "\<not> is_numch c \<Longrightarrow> dropWhile is_numch (format_fixed d k @ c # r) = c # r"
  using format_fixed_numch by (simp add: dropWhile_append2)

lemma search_group_skip_format:
  "search_group (match_num name) (format_fixed d k @ c # r) =
     search_group (match_num name) (c # r)"
  using match_num_not_s format_fixed_no_s by (rule search_group_skip)

lemma search_colour_skip_format:
  "search_group match_colour1 (format_fixed d k @ c # r) = search_group match_colour1 (c # r)"
  using match_colour1_not_s format_fixed_no_s by (rule search_group_skip)

lemma numch_not_space: "is_numch c \<Longrightarrow> \<not> is_space c"
  by (auto simp: is_numch_def is_digit_def is_space_def)

lemma format_fixed_Cons: "\<exists>c cs. format_fixed d k = c # cs \<and> is_numch c"
  using format_fixed_nonempty [of d k] format_fixed_numch [of d k]
  by (cases "format_fixed d k") auto

lemma dropWhile_space_format: "dropWhile is_space (format_fixed d k @ r) = format_fixed d k @ r"
  using format_fixed_Cons [of d k] by (auto simp: numch_not_space)

lemma takeWhile_space_format: "takeWhile is_space (format_fixed d k @ r) = []"
  using format_fixed_Cons [of d k] by (auto simp: numch_not_space)

lemma match_assign_prefix: "match_assign name s \<noteq> None \<Longrightarrow> prefix ''self.'' s"
  by (auto simp: match_assign_def Let_def prefix_def split: if_splits)

lemma match_num_prefix: "match_num name s \<noteq> None \<Longrightarrow> prefix ''self.'' s"
  using match_assign_prefix [of name s] by (auto simp: match_num_def split: option.splits)

lemma match_colour1_prefix: "match_colour1 s \<noteq> None \<Longrightarrow> prefix ''self.'' s"
  using match_assign_prefix [of "''colour_detection''" s]
  by (auto simp: match_colour1_def match_colour_def split: option.splits)

lemma search_group_Nil: "m [] = None \<Longrightarrow> search_group m [] = None"
  by (simp add: search_group_def)

lemma search_skip_text:
  assumes m: "\<And>s. m s \<noteq> None \<Longrightarrow> prefix key s"
    and "\<not> contains key A" and "A \<noteq> []" and "last A \<notin> set key"
  shows "search_group m (A @ R) = search_group m R"
  using assms(2-4)
proof (induction A)
  case Nil
  then show ?case by simp
next
  case (Cons c A)
  have none: "m ((c # A) @ R) = None"
  proof (rule ccontr)
    assume "m ((c # A) @ R) \<noteq> None"
    then have "prefix key ((c # A) @ R)" by (rule m)
    then have "prefix key (c # A) \<or> (\<exists>us. key = (c # A) @ us)"
      unfolding prefix_append by blast
    then show False
    proof
      assume "prefix key (c # A)"
      with Cons.prems(1) show ?thesis by simp
    next
      assume "\<exists>us. key = (c # A) @ us"
      then obtain us where "key = (c # A) @ us" by blast
      then have "set (c # A) \<subseteq> set key" by auto
      moreover have "last (c # A) \<in> set (c # A)" by (rule last_in_set) simp
      ultimately show ?thesis using Cons.prems(3) by blast
    qed
  qed
  show ?case
  proof (cases "A = []")
    case True
    with none show ?thesis by (simp add: search_group_Cons)
  next
    case False
    with Cons.prems have "\<not> contains key A" "last A \<notin> set key" by auto
    with Cons.IH False none show ?thesis by (simp add: search_group_Cons)
  qed
qed

lemma search_num_skip_text:
  assumes "\<not> contains ''self.'' A" and "A \<noteq> []" and "last A \<notin> set ''self.''"
  shows "search_group (match_num name) (A @ R) = search_group (match_num name) R"
proof (rule search_skip_text [where m = "match_num name" and key = "''self.''"])
  show "\<And>s. match_num name s \<noteq> None \<Longrightarrow> prefix ''self.'' s"
    by (rule match_num_prefix)
qed (fact assms)+

lemma search_colour_skip_text:
  assumes "\<not> contains ''self.'' A" and "A \<noteq> []" and "last A \<notin> set ''self.''"
  shows "search_group match_colour1 (A @ R) = search_group match_colour1 R"
proof (rule search_skip_text [where m = match_colour1 and key = "''self.''"])
  show "\<And>s. match_colour1 s \<noteq> None \<Longrightarrow> prefix ''self.'' s"
    by (rule match_colour1_prefix)
qed (fact assms)+

lemmas search_eval =
  search_group_Cons match_num_def match_colour1_def match_colour_def match_assign_def
  is_space_def is_numch_def is_digit_def
  takeWhile_numch_format dropWhile_numch_format format_fixed_nonempty
  dropWhile_space_format takeWhile_space_format
  search_group_skip_format search_colour_skip_format

lemma search_generated:
  fixes P :: "'a params_scheme"
  shows "search_group (match_num ''forward_speed'') (generate_simple_code P) =
           Some (format_fixed 2 (forward_speed P))"
    and "search_group (match_num ''backward_speed'') (generate_simple_code P) =
           Some (format_fixed 2 (backward_speed P))"
    and "search_group (match_num ''turn_speed'') (generate_simple_code P) =
           Some (format_fixed 2 (turn_speed P))"
    and "search_group (match_num ''obstacle_distance'') (generate_simple_code P) =
           Some (format_fixed 2 (obstacle_distance P))"
    and "search_group (match_num ''turn_cw_deg'') (generate_simple_code P) =
           Some (format_fixed 1 (turn_cw P))"
    and "search_group (match_num ''turn_acw_deg'') (generate_simple_code P) =
           Some (format_fixed 1 (turn_acw P))"
    and "search_group match_colour1 (generate_simple_code P) =
           Some (colour_text (colour_detection P))"
proof -
  define B0 :: string where "B0 = ''from codebotair import Robot'' @ [NL] @ [NL] @ ''class Movement(Robot):'' @ [NL] @ ''    def __init__(self):'' @ [NL] @ ''        super().__init__()'' @ [NL] @ ''        # === Editable Parameters ==='' @ [NL] @ ''        ''"
  define E1 :: string where "E1 = ''      # m/s  '' @ arrow @ '' edit'' @ [NL] @ ''        ''"
  define E2 :: string where "E2 = ''     # m/s  '' @ arrow @ '' edit'' @ [NL] @ ''        ''"
  define E3 :: string where "E3 = ''         # rad/s  '' @ arrow @ '' edit'' @ [NL] @ ''        ''"
  define E4 :: string where "E4 = ''  # metres  '' @ arrow @ '' edit'' @ [NL] @ ''        ''"
  define E5 :: string where "E5 = ''        # degrees CW  '' @ arrow @ '' edit'' @ [NL] @ ''        ''"
  define E6 :: string where "E6 = ''       # degrees ACW  '' @ arrow @ '' edit'' @ [NL] @ ''        ''"
  define E7 :: string where "E7 = ''   # Red|Blue|Yellow|Green  '' @ arrow @ '' edit'' @ [NL] @ [NL] @ ''    # vvv Drag and drop functions below vvv'' @ [NL] @ [NL] @ ''    def control_loop(self):'' @ [NL] @ ''        # === Movement Logic ==='' @ [NL] @ ''        if self.obstacle_in_front():'' @ [NL] @ ''            self.stop()                       # stop movement'' @ [NL] @ ''            self.turn_cw(self.turn_cw_deg)    # turn clockwise  '' @ arrow @ '' edit'' @ [NL] @ ''        else:'' @ [NL] @ ''            self.move(self.forward_speed)     # drive forward  '' @ arrow @ '' edit'' @ [NL]"
  have T: "generate_simple_code P =
      B0 @ ''self.forward_speed = '' @ format_fixed 2 (forward_speed P) @ CHR '' '' # E1 @
      ''self.backward_speed = '' @ format_fixed 2 (backward_speed P) @ CHR '' '' # E2 @
      ''self.turn_speed = '' @ format_fixed 2 (turn_speed P) @ CHR '' '' # E3 @
      ''self.obstacle_distance = '' @ format_fixed 2 (obstacle_distance P) @ CHR '' '' # E4 @
      ''self.turn_cw_deg = '' @ format_fixed 1 (turn_cw P) @ CHR '' '' # E5 @
      ''self.turn_acw_deg = '' @ format_fixed 1 (turn_acw P) @ CHR '' '' # E6 @
      ''self.colour_detection = '' @ [DQ] @ colour_text (colour_detection P) @ DQ # E7"
    unfolding generate_simple_code_def B0_def E1_def E2_def E3_def E4_def E5_def E6_def E7_def
    by simp
  have c: "\<not> contains ''self.'' B0" "\<not> contains ''self.'' E1" "\<not> contains ''self.'' E2"
    "\<not> contains ''self.'' E3" "\<not> contains ''self.'' E4" "\<not> contains ''self.'' E5"
    "\<not> contains ''self.'' E6"
    unfolding B0_def E1_def E2_def E3_def E4_def E5_def E6_def arrow_def by simp_all
  have ne: "B0 \<noteq> []" "E1 \<noteq> []" "E2 \<noteq> []" "E3 \<noteq> []" "E4 \<noteq> []" "E5 \<noteq> []"
    "E6 \<noteq> []"
    unfolding B0_def E1_def E2_def E3_def E4_def E5_def E6_def arrow_def by simp_all
  have la: "last B0 \<notin> set ''self.''" "last E1 \<notin> set ''self.''" "last E2 \<notin> set ''self.''"
    "last E3 \<notin> set ''self.''" "last E4 \<notin> set ''self.''" "last E5 \<notin> set ''self.''"
    "last E6 \<notin> set ''self.''"
    unfolding B0_def E1_def E2_def E3_def E4_def E5_def E6_def arrow_def by simp_all
  note sn =
    search_num_skip_text [OF c(1) ne(1) la(1)]
    search_num_skip_text [OF c(2) ne(2) la(2)]
    search_num_skip_text [OF c(3) ne(3) la(3)]
    search_num_skip_text [OF c(4) ne(4) la(4)]
    search_num_skip_text [OF c(5) ne(5) la(5)]
    search_num_skip_text [OF c(6) ne(6) la(6)]
    search_num_skip_text [OF c(7) ne(7) la(7)]
  note sc =
    search_colour_skip_text [OF c(1) ne(1) la(1)]
    search_colour_skip_text [OF c(2) ne(2) la(2)]
    search_colour_skip_text [OF c(3) ne(3) la(3)]
    search_colour_skip_text [OF c(4) ne(4) la(4)]
    search_colour_skip_text [OF c(5) ne(5) la(5)]
    search_colour_skip_text [OF c(6) ne(6) la(6)]
    search_colour_skip_text [OF c(7) ne(7) la(7)]
  show "search_group (match_num ''forward_speed'') (generate_simple_code P) =
           Some (format_fixed 2 (forward_speed P))"
    unfolding T by (simp add: sn search_eval)
  show "search_group (match_num ''backward_speed'') (generate_simple_code P) =
           Some (format_fixed 2 (backward_speed P))"
    unfolding T by (simp add: sn search_eval)
  show "search_group (match_num ''turn_speed'') (generate_simple_code P) =
           Some (format_fixed 2 (turn_speed P))"
    unfolding T by (simp add: sn search_eval)
  show "search_group (match_num ''obstacle_distance'') (generate_simple_code P) =
           Some (format_fixed 2 (obstacle_distance P))"
    unfolding T by (simp add: sn search_eval)
  show "search_group (match_num ''turn_cw_deg'') (generate_simple_code P) =
           Some (format_fixed 1 (turn_cw P))"
    unfolding T by (simp add: sn search_eval)
  show "search_group (match_num ''turn_acw_deg'') (generate_simple_code P) =
           Some (format_fixed 1 (turn_acw P))"
    unfolding T by (simp add: sn search_eval)
  show "search_group match_colour1 (generate_simple_code P) =
           Some (colour_text (colour_detection P))"
    unfolding T by (cases "colour_detection P") (simp_all add: sc search_eval)
qed

section \<open>Parsing the formatted numbers\<close>

lemma digit_val_digit_char: "d < 10 \<Longrightarrow> digit_val (digit_char d) = d"
proof -
  assume "d < 10"
  then have "d \<in> {0, 1, 2, 3, 4, 5, 6, 7, 8, 9}" by auto
  then show ?thesis by (auto simp: digit_val_def digit_char_def)
qed

lemma foldl_digits:
  "foldl (\<lambda>a c. 10 * a + digit_val c) a xs =
     a * 10 ^ length xs + foldl (\<lambda>a c. 10 * a + digit_val c) 0 xs"
proof (induction xs arbitrary: a)
  case Nil
  show ?case by simp
next
  case (Cons x xs)
  let ?f = "\<lambda>a c. 10 * a + digit_val c"
  have 1: "foldl ?f (10 * a + digit_val x) xs =
      (10 * a + digit_val x) * 10 ^ length xs + foldl ?f 0 xs"
    by (rule Cons.IH)
  have 2: "foldl ?f (digit_val x) xs = digit_val x * 10 ^ length xs + foldl ?f 0 xs"
    by (rule Cons.IH)
  have 3: "foldl ?f a (x # xs) = foldl ?f (10 * a + digit_val x) xs" by simp
  have 4: "foldl ?f 0 (x # xs) = foldl ?f (digit_val x) xs" by simp
  have arith: "(10 * a + v) * p + F = a * (10 * p) + (v * p + F)" for v p F :: nat
    by (simp add: algebra_simps)
  have "(10 * a + digit_val x) * 10 ^ length xs + foldl ?f 0 xs =
      a * 10 ^ length (x # xs) + (digit_val x * 10 ^ length xs + foldl ?f 0 xs)"
    unfolding length_Cons power_Suc by (rule arith)
  then show ?case unfolding 3 4 1 2 .
qed

lemma digits_val_append:
  "digits_val (xs @ ys) = digits_val xs * 10 ^ length ys + digits_val ys"
  by (simp add: digits_val_def foldl_digits [of "foldl _ _ xs"])

lemma digits_val_single: "digits_val [c] = digit_val c"
  by (simp add: digits_val_def)

lemma digits_val_show_nat: "digits_val (show_nat n) = n"
proof (induction n rule: show_nat.induct)
  case (1 n)
  show ?case
  proof (cases "n < 10")
    case True
    then show ?thesis
      by (subst show_nat.simps) (simp add: digits_val_single digit_val_digit_char)
  next
    case False
    with 1 show ?thesis
      by (subst show_nat.simps)
        (simp add: digits_val_append digits_val_single digit_val_digit_char)
  qed
qed

lemma digits_val_pad_digits: "digits_val (pad_digits d n) = n mod 10 ^ d"
proof (induction d arbitrary: n)
  case 0
  show ?case by (simp add: digits_val_def)
next
  case (Suc d)
  have "n mod (10 * 10 ^ d) = 10 * (n div 10 mod 10 ^ d) + n mod 10"
    by (rule mod_mult2_eq)
  then show ?case
    by (simp add: digits_val_append digits_val_single digit_val_digit_char Suc)
qed

lemma py_float_format_fixed: "py_float (format_fixed d k) = Some (k, d)"
proof -
  let ?ip = "show_nat (k div 10 ^ d)" and ?fr = "pad_digits d (k mod 10 ^ d)"
  have dot: "\<not> is_digit (CHR ''.'')" by (simp add: is_digit_def)
  have tw: "takeWhile is_digit (?ip @ CHR ''.'' # ?fr) = ?ip"
    using show_nat_digits dot by (simp add: takeWhile_append2)
  have dw: "dropWhile is_digit (?ip @ CHR ''.'' # ?fr) = CHR ''.'' # ?fr"
    using show_nat_digits dot by (simp add: dropWhile_append2)
  have "k div 10 ^ d * 10 ^ d + k mod 10 ^ d = k"
    by (rule div_mult_mod_eq)
  then have val: "digits_val (?ip @ ?fr) = k"
    by (simp add: digits_val_append digits_val_show_nat digits_val_pad_digits length_pad_digits)
  have "list_all is_digit ?fr"
    using pad_digits_digits by (simp add: list_all_iff)
  with tw dw val show ?thesis
    by (simp add: py_float_def format_fixed_def Let_def show_nat_nonempty length_pad_digits)
qed

lemma spin_setValue_exact: "lo \<le> k \<Longrightarrow> k \<le> hi \<Longrightarrow> spin_setValue lo hi d (k, d) = k"
proof -
  assume r: "lo \<le> k" "k \<le> hi"
  have 1: "2 * k * 10 ^ d + 10 ^ d = (2 * k + 1) * (10 :: nat) ^ d"
    by (simp add: algebra_simps)
  have 2: "(2 * k + 1) * 10 ^ d div (2 * 10 ^ d) = (2 * k + 1) div 2"
    by (rule div_mult_mult2) simp
  have 3: "(2 * k + 1) div 2 = k" by simp
  have e: "(2 * k * 10 ^ d + 10 ^ d) div (2 * 10 ^ d) = k"
    unfolding 1 2 3 ..
  show ?thesis unfolding spin_setValue_def prod.case e using r by simp
qed

lemma colour_of_text_colour_text: "colour_of_text (colour_text c) = Some c"
  by (cases c) (simp_all add: colour_of_text_def)

section \<open>Render, extract, render\<close>

lemma set_from_match_generated:
  assumes "search_group (match_num name) (simple_editor st) = Some (format_fixed d k)"
    and "lo \<le> k" and "k \<le> hi"
  shows "set_from_match name lo hi d set_box (simple_editor st) st = (None, set_box k st)"
  using assms by (simp add: set_from_match_def py_float_format_fixed spin_setValue_exact)

lemma generate_simple_code_cong:
  assumes "forward_speed Q = forward_speed P" "backward_speed Q = backward_speed P"
    "turn_speed Q = turn_speed P" "obstacle_distance Q = obstacle_distance P"
    "turn_cw Q = turn_cw P" "turn_acw Q = turn_acw P" "colour_detection Q = colour_detection P"
  shows "generate_simple_code Q = generate_simple_code P"
  by (simp only: generate_simple_code_def assms)

lemma parse_generated:
  fixes P :: "'a params_scheme"
  assumes "in_range P" and "simple_editor st = generate_simple_code P"
  shows "parse_simple_code st =
     (None, st\<lparr>forward_speed := forward_speed P, backward_speed := backward_speed P,
                turn_speed := turn_speed P, obstacle_distance := obstacle_distance P,
                turn_cw := turn_cw P, turn_acw := turn_acw P,
                colour_detection := colour_detection P\<rparr>)"
  using assms
  by (simp add: parse_simple_code_def then_do_def set_from_match_def set_colour_from_match_def
      search_generated py_float_format_fixed spin_setValue_exact colour_of_text_colour_text
      in_range_def)

text \<open>
  C4: for every parameter set inside the ranges of the spin boxes, extraction from the
  rendered text raises nothing and stores the same parameter values, so that rendering
  again yields the same text.
\<close>

theorem C4_render_extract_render:
  fixes P :: "'a params_scheme"
  assumes "in_range P" and "simple_editor st = generate_simple_code P" and "\<not> syncing st"
  shows "fst (on_simple_code_changed st) = None \<and>
         generate_simple_code (snd (on_simple_code_changed st)) = generate_simple_code P"
proof -
  have "simple_editor (st\<lparr>syncing := True\<rparr>) = generate_simple_code P"
    using assms(2) by simp
  from parse_generated [OF assms(1) this] assms(3)
  have res: "on_simple_code_changed st =
     (None, st\<lparr>syncing := True, forward_speed := forward_speed P,
                backward_speed := backward_speed P, turn_speed := turn_speed P,
                obstacle_distance := obstacle_distance P, turn_cw := turn_cw P,
                turn_acw := turn_acw P, colour_detection := colour_detection P,
                syncing := False\<rparr>)"
    by (simp add: on_simple_code_changed_def with_syncing_def)
  show ?thesis unfolding res fst_conv snd_conv
    by (intro conjI refl generate_simple_code_cong) simp_all
qed

theorem C4_render_extract_render_witness:
  "fst (on_simple_code_changed
          ((init_app Map.empty)\<lparr>simple_editor := generate_simple_code (init_app Map.empty)\<rparr>)) = None \<and>
   generate_simple_code (snd (on_simple_code_changed
          ((init_app Map.empty)\<lparr>simple_editor := generate_simple_code (init_app Map.empty)\<rparr>))) =
     generate_simple_code (init_app Map.empty)"
proof -
  have r: "in_range (init_app Map.empty)"
    by (simp add: in_range_def init_app_def)
  have e: "simple_editor ((init_app Map.empty)\<lparr>simple_editor :=
      generate_simple_code (init_app Map.empty)\<rparr>) = generate_simple_code (init_app Map.empty)"
    by simp
  have s: "\<not> syncing ((init_app Map.empty)\<lparr>simple_editor :=
      generate_simple_code (init_app Map.empty)\<rparr>)"
    by (simp add: init_app_def)
  show ?thesis by (rule C4_render_extract_render [OF r e s])
qed

section \<open>The substitution on structured text\<close>

lemma re_search_skip_text:
  assumes m: "\<And>s. m s \<noteq> None \<Longrightarrow> prefix key s"
    and "\<not> contains key A" and "A \<noteq> []" and "last A \<notin> set key"
  shows "re_search m (A @ R) = map_option (\<lambda>(p, x). (A @ p, x)) (re_search m R)"
  using assms(2-4)
proof (induction A)
  case Nil
  then show ?case by simp
next
  case (Cons c A)
  have none: "m ((c # A) @ R) = None"
  proof (rule ccontr)
    assume "m ((c # A) @ R) \<noteq> None"
    then have "prefix key ((c # A) @ R)" by (rule m)
    then have "prefix key (c # A) \<or> (\<exists>us. key = (c # A) @ us)"
      unfolding prefix_append by blast
    then show False
    proof
      assume "prefix key (c # A)"
      with Cons.prems(1) show ?thesis by simp
    next
      assume "\<exists>us. key = (c # A) @ us"
      then obtain us where "key = (c # A) @ us" by blast
      then have "set (c # A) \<subseteq> set key" by auto
      moreover have "last (c # A) \<in> set (c # A)" by (rule last_in_set) simp
      ultimately show ?thesis using Cons.prems(3) by blast
    qed
  qed
  show ?case
  proof (cases "A = []")
    case True
    with none show ?thesis
      by (simp add: option.map_comp comp_def split_def)
  next
    case False
    with Cons.prems have "\<not> contains key A" "last A \<notin> set key" by auto
    with Cons.IH False none show ?thesis
      by (simp add: option.map_comp comp_def split_def)
  qed
qed




lemma match_colour_prefix: "match_colour s \<noteq> None \<Longrightarrow> prefix ''self.'' s"
  using match_assign_prefix [of "''colour_detection''" s]
  by (auto simp: match_colour_def split: option.splits)

lemma sub_num_skip_text:
  assumes "\<not> contains ''self.'' A" and "A \<noteq> []" and "last A \<notin> set ''self.''"
  shows "sub_num name val (A @ R) = A @ sub_num name val R"
proof -
  have "re_search (match_num name) (A @ R) =
      map_option (\<lambda>(p, x). (A @ p, x)) (re_search (match_num name) R)"
  proof (rule re_search_skip_text [where key = "''self.''"])
    show "\<And>s. match_num name s \<noteq> None \<Longrightarrow> prefix ''self.'' s" by (rule match_num_prefix)
  qed (fact assms)+
  then show ?thesis by (auto simp: sub_num_def split: option.splits)
qed

lemma sub_colour_skip_text:
  assumes "\<not> contains ''self.'' A" and "A \<noteq> []" and "last A \<notin> set ''self.''"
  shows "sub_colour val (A @ R) = A @ sub_colour val R"
proof -
  have "re_search match_colour (A @ R) =
      map_option (\<lambda>(p, x). (A @ p, x)) (re_search match_colour R)"
  proof (rule re_search_skip_text [where key = "''self.''"])
    show "\<And>s. match_colour s \<noteq> None \<Longrightarrow> prefix ''self.'' s" by (rule match_colour_prefix)
  qed (fact assms)+
  then show ?thesis by (auto simp: sub_colour_def split: option.splits)
qed



lemma generate_simple_code_parts:
  "generate_simple_code P = simple_header P @ default_logic"
  by (simp add: generate_simple_code_def simple_header_def default_logic_def)

section \<open>The rewrite of a header with the seven assignments\<close>



















lemma value_texts_ok:
  assumes "assignments_ok A n v"
  shows "assignments_ok A (value_texts P) (colour_value P)"
proof -
  have "list_all is_numch (format_fixed d k)" for d k
    using format_fixed_numch [of d k] by (simp add: list_all_iff)
  moreover have "DQ \<notin> set (colour_text c)" for c
    by (cases c) simp_all
  ultimately show ?thesis
    using assms by (simp add: assignments_ok_def value_texts_def colour_value_def format_fixed_nonempty)
qed

section \<open>The first occurrence of a marker\<close>









section \<open>The header of the reconciled artifact\<close>



section \<open>Later occurrences of an assignment\<close>





section \<open>The logic region of the reconciled artifact\<close>





end
